theory Spec2Isabelle
  imports Complex_Main
begin

section \<open>The order-book hook of \<^verbatim>\<open>src/app/page.tsx\<close>\<close>

text \<open>
  This theory embeds \<^verbatim>\<open>useOrderbookWebSocket\<close> (lines 40 to 185 of
  \<^verbatim>\<open>src/app/page.tsx\<close>): the snapshot loader \<^verbatim>\<open>initializeOrderbook\<close>, the
  socket handlers installed by \<^verbatim>\<open>connectWebSocket\<close> and the mount effect.

  Modelling decisions.
  \<^item> A JavaScript number that is a price or a quantity is a \<^typ>\<open>real\<close>. The source only
    compares them (\<^verbatim>\<open>===\<close>, the sign of a difference inside a sort comparator); on finite
    doubles these comparisons agree with the order of the reals. \<^verbatim>\<open>NaN\<close> and the
    infinities, which \<^verbatim>\<open>parseFloat\<close> returns for text that is not a decimal numeral, are
    outside the model: the pairs below are the prices and quantities after \<^verbatim>\<open>parseFloat\<close>.
  \<^item> Update ids and timestamps are integers (\<^typ>\<open>int\<close>).
  \<^item> Arrays are mutable and shared in the source (\<^verbatim>\<open>{ ...orderbookRef.current }\<close> copies the
    object, not its two arrays), so arrays live in a store: an array value is an address
    and \<open>heap\<close> maps addresses to contents. \<^verbatim>\<open>map\<close> and \<^verbatim>\<open>slice\<close> allocate, while
    \<^verbatim>\<open>splice\<close>, \<^verbatim>\<open>push\<close>, \<^verbatim>\<open>sort\<close> and an indexed assignment write to the address they are
    called on. Level objects are never written after their creation and are held by value;
    so are the \<^verbatim>\<open>OrderbookData\<close> objects, whose only field write (line 139) happens on
    the fresh copy before it is published.
  \<^item> A React state setter is taken to have set the state when it returns, and the updater
    passed to \<^verbatim>\<open>setHistoricalData\<close> to run at that call.
  \<^item> \<^verbatim>\<open>Date.now()\<close> is an input: a handler that reads the clock once takes the reading as
    an argument; \<^verbatim>\<open>initializeOrderbook\<close>, which reads it once per level and once more for
    the history entry, takes the function from the number of the call to the reading.
\<close>

subsection \<open>Types (lines 7 to 37)\<close>

record OrderbookLevel =
  price :: real
  quantity :: real
  timestamp :: int

type_synonym addr = nat

text \<open>\<^verbatim>\<open>OrderbookData\<close>: the two arrays are references.\<close>

record OrderbookData =
  bids :: addr
  asks :: addr
  lastUpdateId :: int

text \<open>\<^verbatim>\<open>HistoricalData\<close>; the fields carry a prefix, since the names are taken.\<close>

record HistoricalData =
  h_timestamp :: int
  h_bids :: addr
  h_asks :: addr

text \<open>
  The payload of a depth event after \<^verbatim>\<open>JSON.parse\<close>: \<^verbatim>\<open>data.U\<close>, \<^verbatim>\<open>data.u\<close>, and the
  optional delta lists \<^verbatim>\<open>data.b\<close> and \<^verbatim>\<open>data.a\<close> (read with \<^verbatim>\<open>?.\<close>, so they may be absent).
\<close>

record DiffMessage =
  data_U :: int
  data_u :: int
  data_b :: "(real \<times> real) list option"
  data_a :: "(real \<times> real) list option"

text \<open>The body of the REST answer, as far as lines 53 to 65 read it.\<close>

record DepthSnapshot =
  d_bids :: "(real \<times> real) list"
  d_asks :: "(real \<times> real) list"
  d_lastUpdateId :: int

text \<open>
  How lines 50 to 65 end: \<open>FetchFailed\<close> stands for every exception raised there (a
  rejected \<^verbatim>\<open>fetch\<close>, a body that is not JSON, a body without the \<^verbatim>\<open>bids\<close> or \<^verbatim>\<open>asks\<close> array,
  such as the error object of a non-200 answer); all are caught at line 76.
\<close>

datatype fetch_result = FetchFailed | FetchOk DepthSnapshot

datatype ready_state = CONNECTING | OPEN | CLOSING | CLOSED

text \<open>
  The state of the hook: the store of arrays with its allocation pointer, the four React
  states of lines 41 to 44 and the two refs of lines 45 and 46. \<open>wsRef\<close> is \<open>None\<close> for
  \<^verbatim>\<open>null\<close> and otherwise the \<^verbatim>\<open>readyState\<close> of the socket it points to.
\<close>

record hook_state =
  heap :: "addr \<Rightarrow> OrderbookLevel list"
  next_addr :: addr
  orderbook :: OrderbookData
  historicalData :: "HistoricalData list"
  connected_flag :: bool
  error :: "string option"
  wsRef :: "ready_state option"
  orderbookRef :: OrderbookData

text \<open>What a handler asks of its environment.\<close>

datatype effect = Fetch | NewWebSocket | SetTimeout nat

text \<open>
  Lines 41 to 46: both initial books are object literals of their own, with two fresh empty
  arrays each.
\<close>

definition initial_state :: hook_state where
  "initial_state =
     \<lparr>heap = (\<lambda>_. []), next_addr = 4,
      orderbook = \<lparr>bids = 0, asks = 1, lastUpdateId = 0\<rparr>,
      historicalData = [], connected_flag = False, error = None, wsRef = None,
      orderbookRef = \<lparr>bids = 2, asks = 3, lastUpdateId = 0\<rparr>\<rparr>"

subsection \<open>Array operations\<close>

text \<open>\<^verbatim>\<open>findIndex\<close>: the first index whose element satisfies the test, \<open>None\<close> for \<open>-1\<close>.\<close>

fun findIndex :: "('a \<Rightarrow> bool) \<Rightarrow> 'a list \<Rightarrow> nat option" where
  "findIndex P [] = None"
| "findIndex P (x # xs) = (if P x then Some 0 else map_option Suc (findIndex P xs))"

text \<open>\<^verbatim>\<open>xs.splice(i, 1)\<close>, called only with an index \<^verbatim>\<open>findIndex\<close> returned.\<close>

definition splice1 :: "nat \<Rightarrow> 'a list \<Rightarrow> 'a list" where
  "splice1 i xs = take i xs @ drop (Suc i) xs"

text \<open>
  \<^verbatim>\<open>sort\<close> is stable; with the comparator \<^verbatim>\<open>b.price - a.price\<close> it sorts by falling price and
  with \<^verbatim>\<open>a.price - b.price\<close> by rising price.
\<close>

definition sort_bids :: "OrderbookLevel list \<Rightarrow> OrderbookLevel list" where
  "sort_bids = sort_key (\<lambda>l. - price l)"

definition sort_asks :: "OrderbookLevel list \<Rightarrow> OrderbookLevel list" where
  "sort_asks = sort_key price"

text \<open>\<^verbatim>\<open>xs.slice(-n)\<close> for a positive \<open>n\<close>: the last \<open>n\<close> elements, all of them if there are fewer.\<close>

definition slice_last :: "nat \<Rightarrow> 'a list \<Rightarrow> 'a list" where
  "slice_last n xs = drop (length xs - n) xs"

subsection \<open>One delta (lines 102 to 118 and 121 to 137)\<close>

text \<open>
  The two \<^verbatim>\<open>forEach\<close> bodies differ in the comparator only, which is the first argument.
\<close>

definition apply_delta ::
  "(OrderbookLevel list \<Rightarrow> OrderbookLevel list) \<Rightarrow> int \<Rightarrow> OrderbookLevel list \<Rightarrow> real \<times> real
     \<Rightarrow> OrderbookLevel list" where
  "apply_delta srt ts levels d =
     (case d of (priceNum, quantityNum) \<Rightarrow>
        let index = findIndex (\<lambda>l. price l = priceNum) levels in
        if quantityNum = 0 then
          (case index of Some i \<Rightarrow> splice1 i levels | None \<Rightarrow> levels)
        else
          let level = \<lparr>price = priceNum, quantity = quantityNum, timestamp = ts\<rparr> in
          (case index of
             Some i \<Rightarrow> levels[i := level]
           | None \<Rightarrow> srt (levels @ [level])))"

definition apply_deltas ::
  "(OrderbookLevel list \<Rightarrow> OrderbookLevel list) \<Rightarrow> int \<Rightarrow> (real \<times> real) list option
     \<Rightarrow> OrderbookLevel list \<Rightarrow> OrderbookLevel list" where
  "apply_deltas srt ts ds levels =
     (case ds of None \<Rightarrow> levels | Some l \<Rightarrow> foldl (apply_delta srt ts) levels l)"

subsection \<open>The history buffer (lines 144 to 152)\<close>

definition append_snapshot :: "'a list \<Rightarrow> 'a \<Rightarrow> 'a list" where
  "append_snapshot prev newSnapshot = (let updated = prev @ [newSnapshot] in slice_last 60 updated)"

subsection \<open>\<^verbatim>\<open>initializeOrderbook\<close> (lines 48 to 80)\<close>

definition make_levels :: "(nat \<Rightarrow> int) \<Rightarrow> nat \<Rightarrow> (real \<times> real) list \<Rightarrow> OrderbookLevel list" where
  "make_levels now k ps =
     map (\<lambda>(i, (p, q)). \<lparr>price = p, quantity = q, timestamp = now i\<rparr>) (enumerate k ps)"

definition initializeOrderbook :: "(nat \<Rightarrow> int) \<Rightarrow> fetch_result \<Rightarrow> hook_state \<Rightarrow> hook_state" where
  "initializeOrderbook now r st =
     (case r of
        FetchFailed \<Rightarrow> st\<lparr>error := Some ''Failed to initialize orderbook''\<rparr>
      | FetchOk d \<Rightarrow>
          let bidsArr = make_levels now 0 (d_bids d);
              asksArr = make_levels now (length (d_bids d)) (d_asks d);
              n = next_addr st;
              initialOrderbook = \<lparr>bids = n, asks = n + 1, lastUpdateId = d_lastUpdateId d\<rparr>
          in st\<lparr>heap := (heap st)(n := bidsArr, n + 1 := asksArr,
                                  n + 2 := take 20 bidsArr, n + 3 := take 20 asksArr),
                next_addr := n + 4,
                orderbookRef := initialOrderbook,
                orderbook := initialOrderbook,
                historicalData :=
                  [\<lparr>h_timestamp = now (length (d_bids d) + length (d_asks d)),
                    h_bids = n + 2, h_asks = n + 3\<rparr>]\<rparr>)"

subsection \<open>The socket handlers (lines 88 to 163)\<close>

definition onopen :: "hook_state \<Rightarrow> hook_state" where
  "onopen st = st\<lparr>connected_flag := True, error := None\<rparr>"

text \<open>
  \<^verbatim>\<open>onmessage\<close>. The spread of line 99 copies the two array references, so the deltas are
  written into the arrays \<open>orderbookRef\<close> already points to.
\<close>

definition onmessage :: "int \<Rightarrow> DiffMessage \<Rightarrow> hook_state \<Rightarrow> hook_state" where
  "onmessage ts data st =
     (if data_U data \<le> lastUpdateId (orderbookRef st) then st
      else
        let cur = orderbookRef st;
            h1 = (heap st)(bids cur := apply_deltas sort_bids ts (data_b data) (heap st (bids cur)));
            h2 = h1(asks cur := apply_deltas sort_asks ts (data_a data) (h1 (asks cur)));
            updatedOrderbook = cur\<lparr>lastUpdateId := data_u data\<rparr>;
            n = next_addr st;
            newSnapshot = \<lparr>h_timestamp = ts, h_bids = n, h_asks = n + 1\<rparr>
        in st\<lparr>heap := h2(n := take 20 (h2 (bids cur)), n + 1 := take 20 (h2 (asks cur))),
              next_addr := n + 2,
              orderbookRef := updatedOrderbook,
              orderbook := updatedOrderbook,
              historicalData := append_snapshot (historicalData st) newSnapshot\<rparr>)"

definition onerror :: "hook_state \<Rightarrow> hook_state" where
  "onerror st = st\<lparr>error := Some ''WebSocket connection error'', connected_flag := False\<rparr>"

definition onclose :: "hook_state \<Rightarrow> hook_state \<times> effect list" where
  "onclose st = (st\<lparr>connected_flag := False\<rparr>, [SetTimeout 3000])"

text \<open>
  \<^verbatim>\<open>connectWebSocket\<close> (lines 82 to 170). The first argument says whether the \<^verbatim>\<open>WebSocket\<close>
  constructor throws, which it does for a URL it cannot parse; the \<^verbatim>\<open>catch\<close> of line 166
  takes that case.
\<close>

definition connectWebSocket :: "bool \<Rightarrow> hook_state \<Rightarrow> hook_state \<times> effect list" where
  "connectWebSocket throws st =
     (if wsRef st = Some OPEN then (st, [])
      else if throws then
        (st\<lparr>error := Some ''Failed to connect to WebSocket'', connected_flag := False\<rparr>, [])
      else (st\<lparr>wsRef := Some CONNECTING\<rparr>, [NewWebSocket]))"

subsection \<open>The hook as a transition system\<close>

text \<open>
  The events the hook reacts to: the mount effect of lines 172 to 175 starts
  \<^verbatim>\<open>initializeOrderbook\<close>, whose \<^verbatim>\<open>fetch\<close> settles later; the promise it returns is fulfilled
  on both paths of the \<^verbatim>\<open>try\<close>, so \<^verbatim>\<open>connectWebSocket\<close> runs next in either case. A socket
  event changes the \<^verbatim>\<open>readyState\<close> of the socket before its handler runs. \<open>TimerFired\<close> is
  the timeout set at line 162. The events are those of the socket \<open>wsRef\<close> points to; the
  cleanup of the effect (lines 177 to 181), which closes that socket when the component
  unmounts, is not an event of the model.
\<close>

datatype event =
    Mount
  | FetchSettled "nat \<Rightarrow> int" fetch_result
  | WsOpen
  | WsMessage int DiffMessage
  | WsError
  | WsClose
  | TimerFired

fun step :: "bool \<Rightarrow> hook_state \<Rightarrow> event \<Rightarrow> hook_state \<times> effect list" where
  "step throws st Mount = (st, [Fetch])"
| "step throws st (FetchSettled now r) = connectWebSocket throws (initializeOrderbook now r st)"
| "step throws st WsOpen = (onopen (st\<lparr>wsRef := Some OPEN\<rparr>), [])"
| "step throws st (WsMessage ts data) = (onmessage ts data st, [])"
| "step throws st WsError = (onerror st, [])"
| "step throws st WsClose = onclose (st\<lparr>wsRef := Some CLOSED\<rparr>)"
| "step throws st TimerFired = connectWebSocket throws st"

text \<open>Running a list of events from a state; the effects are collected in order.\<close>

fun run :: "bool \<Rightarrow> hook_state \<Rightarrow> event list \<Rightarrow> hook_state \<times> effect list" where
  "run throws st [] = (st, [])"
| "run throws st (e # es) =
     (case step throws st e of (st', fx) \<Rightarrow>
        (case run throws st' es of (st'', fx') \<Rightarrow> (st'', fx @ fx')))"

text \<open>The contents of the live book: what the arrays of \<open>orderbookRef\<close> hold.\<close>

definition live_bids :: "hook_state \<Rightarrow> OrderbookLevel list" where
  "live_bids st = heap st (bids (orderbookRef st))"

definition live_asks :: "hook_state \<Rightarrow> OrderbookLevel list" where
  "live_asks st = heap st (asks (orderbookRef st))"

definition version :: "hook_state \<Rightarrow> int" where
  "version st = lastUpdateId (orderbookRef st)"

subsection \<open>Properties of a side, of the store and of an event\<close>

text \<open>
  The two sides of a book. The bid side is sorted with the comparator of line 115 and is
  in order when its prices fall strictly; the ask side is sorted with the comparator of
  line 134 and is in order when its prices rise strictly. Either order excludes two levels
  at one price.
\<close>

datatype side = Bid | Ask

fun sort_side :: "side \<Rightarrow> OrderbookLevel list \<Rightarrow> OrderbookLevel list" where
  "sort_side Bid = sort_bids"
| "sort_side Ask = sort_asks"

fun ordered :: "side \<Rightarrow> OrderbookLevel list \<Rightarrow> bool" where
  "ordered Bid xs = sorted_wrt (\<lambda>x y. price y < price x) xs"
| "ordered Ask xs = sorted_wrt (\<lambda>x y. price x < price y) xs"

fun side_key :: "side \<Rightarrow> OrderbookLevel \<Rightarrow> real" where
  "side_key Bid l = - price l"
| "side_key Ask l = price l"

text \<open>
  The live arrays are allocated and are two arrays. It holds initially and after every
  handler, and is what makes a write to one side leave the other side alone.
\<close>

definition live_ok :: "hook_state \<Rightarrow> bool" where
  "live_ok st =
     (bids (orderbookRef st) < next_addr st \<and> asks (orderbookRef st) < next_addr st \<and>
      bids (orderbookRef st) \<noteq> asks (orderbookRef st))"

text \<open>The arrays of the history entries are allocated and are not the live arrays.\<close>

definition hist_ok :: "hook_state \<Rightarrow> bool" where
  "hist_ok st =
     (\<forall>h\<in>set (historicalData st).
        h_bids h < next_addr st \<and> h_asks h < next_addr st \<and>
        h_bids h \<noteq> bids (orderbookRef st) \<and> h_bids h \<noteq> asks (orderbookRef st) \<and>
        h_asks h \<noteq> bids (orderbookRef st) \<and> h_asks h \<noteq> asks (orderbookRef st))"



text \<open>
  The part of the state that holds the book and its history; the rest is the connection
  flag, the error text and the socket reference.
\<close>

definition book_part ::
  "hook_state \<Rightarrow>
     (addr \<Rightarrow> OrderbookLevel list) \<times> addr \<times> OrderbookData \<times> OrderbookData \<times> HistoricalData list" where
  "book_part st = (heap st, next_addr st, orderbookRef st, orderbook st, historicalData st)"


text \<open>
  The admission rule in the words of the specification: a message is accepted at version
  \<open>v\<close> iff \<open>firstVersion \<le> v + 1 \<le> finalVersion\<close>. The source does not contain this test; the
  definition is here to be compared with the guard of line 97.
\<close>

definition spec_admits :: "int \<Rightarrow> DiffMessage \<Rightarrow> bool" where
  "spec_admits v data = (data_U data \<le> v + 1 \<and> v + 1 \<le> data_u data)"

text \<open>The snapshot and the diff of the specification's scenario A.\<close>

definition scenario_snapshot :: DepthSnapshot where
  "scenario_snapshot = \<lparr>d_bids = [(100, 2)], d_asks = [(101, 3)], d_lastUpdateId = 5\<rparr>"

definition scenario_diff :: DiffMessage where
  "scenario_diff = \<lparr>data_U = 6, data_u = 6, data_b = Some [(100, 0)], data_a = Some []\<rparr>"

definition scenario_loaded :: "(nat \<Rightarrow> int) \<Rightarrow> hook_state" where
  "scenario_loaded now = initializeOrderbook now (FetchOk scenario_snapshot) initial_state"

text \<open>Scenario A as a run of the hook from its mount.\<close>

definition scenario_events :: "(nat \<Rightarrow> int) \<Rightarrow> int \<Rightarrow> event list" where
  "scenario_events now ts =
     [Mount, FetchSettled now (FetchOk scenario_snapshot), WsOpen, WsMessage ts scenario_diff]"

text \<open>A clock for the concrete runs below, and the state after loading scenario A with it.\<close>

definition scenario_clock :: "nat \<Rightarrow> int" where
  "scenario_clock k = 1000 + int k"

definition loaded5 :: hook_state where
  "loaded5 = scenario_loaded scenario_clock"


text \<open>
  Messages for a book at version 5: one that skips version 6, one whose range starts at 5
  and ends at 6, and a repetition of version 5.
\<close>

definition gap_diff :: DiffMessage where
  "gap_diff = \<lparr>data_U = 7, data_u = 7, data_b = Some [(99, 1)], data_a = None\<rparr>"

definition overlap_diff :: DiffMessage where
  "overlap_diff = \<lparr>data_U = 5, data_u = 6, data_b = Some [(98, 4)], data_a = None\<rparr>"

definition duplicate_diff :: DiffMessage where
  "duplicate_diff = \<lparr>data_U = 5, data_u = 5, data_b = Some [(100, 0)], data_a = Some [(101, 0)]\<rparr>"

text \<open>The first message of a stream, for a book that no snapshot has filled.\<close>

definition first_diff :: DiffMessage where
  "first_diff = \<lparr>data_U = 1, data_u = 1, data_b = Some [(100, 1)], data_a = None\<rparr>"

section \<open>Verification\<close>

subsection \<open>Array operations\<close>

lemma findIndex_None_iff: "findIndex P xs = None \<longleftrightarrow> (\<forall>x\<in>set xs. \<not> P x)"
  by (induction xs) auto

lemma findIndex_Some: "findIndex P xs = Some i \<Longrightarrow> i < length xs \<and> P (xs ! i) \<and> (\<forall>j<i. \<not> P (xs ! j))"
proof (induction xs arbitrary: i)
  case Nil
  then show ?case by simp
next
  case (Cons x xs)
  show ?case
  proof (cases "P x")
    case True
    with Cons.prems show ?thesis by simp
  next
    case False
    with Cons.prems obtain i' where i': "findIndex P xs = Some i'" "i = Suc i'"
      by auto
    from Cons.IH [OF i'(1)] False i'(2) show ?thesis
      by (auto simp: less_Suc_eq_0_disj)
  qed
qed


lemma distinct_price_head:
  assumes "distinct (map price (x # xs))"
  shows "\<forall>l\<in>set xs. price l \<noteq> price x"
proof -
  from assms have "price x \<notin> price ` set xs" by simp
  then show ?thesis by (metis imageI)
qed

lemma splice1_filter:
  assumes "distinct (map price xs)" "i < length xs" "price (xs ! i) = p"
  shows "splice1 i xs = filter (\<lambda>l. price l \<noteq> p) xs"
  using assms
proof (induction xs arbitrary: i)
  case Nil
  then show ?case by simp
next
  case (Cons x xs)
  note others = distinct_price_head [OF Cons.prems(1)]
  show ?case
  proof (cases i)
    case 0
    with Cons.prems(3) have "price x = p" by simp
    with others 0 show ?thesis by (simp add: splice1_def)
  next
    case (Suc j)
    with Cons.prems have j: "distinct (map price xs)" "j < length xs" "price (xs ! j) = p"
      by simp_all
    from j(2) have "xs ! j \<in> set xs" by simp
    with others j(3) have "price x \<noteq> p" by auto
    with Cons.IH [OF j] Suc show ?thesis by (simp add: splice1_def)
  qed
qed

lemma update_map:
  assumes "distinct (map price xs)" "i < length xs" "price (xs ! i) = p"
  shows "xs[i := v] = map (\<lambda>l. if price l = p then v else l) xs"
  using assms
proof (induction xs arbitrary: i)
  case Nil
  then show ?case by simp
next
  case (Cons x xs)
  note others = distinct_price_head [OF Cons.prems(1)]
  show ?case
  proof (cases i)
    case 0
    with Cons.prems(3) have "price x = p" by simp
    with others 0 show ?thesis by (simp add: map_idI)
  next
    case (Suc j)
    with Cons.prems have j: "distinct (map price xs)" "j < length xs" "price (xs ! j) = p"
      by simp_all
    from j(2) have "xs ! j \<in> set xs" by simp
    with others j(3) have "price x \<noteq> p" by auto
    with Cons.IH [OF j] Suc show ?thesis by simp
  qed
qed

subsection \<open>The order of a side\<close>

lemma sort_side_key: "sort_side s = sort_key (side_key s)"
  by (cases s) (auto simp: sort_bids_def sort_asks_def fun_eq_iff intro: arg_cong [where f = "\<lambda>k. sort_key k _"])

lemma ordered_key: "ordered s xs = sorted_wrt (<) (map (side_key s) xs)"
  by (cases s) (simp_all add: sorted_wrt_map)

lemma side_key_eq: "(side_key s x = side_key s y) = (price x = price y)"
  by (cases s) simp_all

lemma ordered_distinct: "ordered s xs \<Longrightarrow> distinct (map price xs)"
proof -
  assume "ordered s xs"
  then have "distinct (map (side_key s) xs)"
    by (simp add: ordered_key strict_sorted_iff)
  then show ?thesis
    by (simp add: distinct_map inj_on_def side_key_eq)
qed

lemma ordered_filter: "ordered s xs \<Longrightarrow> ordered s (filter P xs)"
  by (cases s) (simp_all add: sorted_wrt_filter)

subsection \<open>One delta\<close>

lemma delta_remove:
  assumes "distinct (map price xs)"
  shows "apply_delta srt ts xs (p, 0) = filter (\<lambda>l. price l \<noteq> p) xs"
proof (cases "findIndex (\<lambda>l. price l = p) xs")
  case None
  then have "\<forall>l\<in>set xs. price l \<noteq> p" by (simp add: findIndex_None_iff)
  then have "filter (\<lambda>l. price l \<noteq> p) xs = xs" by simp
  with None show ?thesis by (simp add: apply_delta_def)
next
  case (Some i)
  from findIndex_Some [OF Some] have "i < length xs" "price (xs ! i) = p" by simp_all
  with assms have "splice1 i xs = filter (\<lambda>l. price l \<noteq> p) xs" by (rule splice1_filter)
  with Some show ?thesis by (simp add: apply_delta_def)
qed

lemma delta_upsert_set:
  assumes "distinct (map price xs)" "q \<noteq> 0"
  shows "set (apply_delta (sort_side s) ts xs (p, q)) =
           insert \<lparr>price = p, quantity = q, timestamp = ts\<rparr> {l \<in> set xs. price l \<noteq> p}"
proof (cases "findIndex (\<lambda>l. price l = p) xs")
  case None
  then have "\<forall>l\<in>set xs. price l \<noteq> p" by (simp add: findIndex_None_iff)
  then have "{l \<in> set xs. price l \<noteq> p} = set xs" by blast
  with None assms(2) show ?thesis by (simp add: apply_delta_def sort_side_key)
next
  case (Some i)
  from findIndex_Some [OF Some] have i: "i < length xs" "price (xs ! i) = p" by simp_all
  let ?v = "\<lparr>price = p, quantity = q, timestamp = ts\<rparr>"
  from assms(1) i have "xs[i := ?v] = map (\<lambda>l. if price l = p then ?v else l) xs"
    by (rule update_map)
  moreover from i have "xs ! i \<in> set xs" by simp
  ultimately have "set (xs[i := ?v]) = insert ?v {l \<in> set xs. price l \<noteq> p}"
    using i(2) by auto
  with Some assms(2) show ?thesis by (simp add: apply_delta_def)
qed

lemma delta_ordered:
  assumes "ordered s xs"
  shows "ordered s (apply_delta (sort_side s) ts xs d)"
proof -
  obtain p q where d: "d = (p, q)" by (cases d)
  have dist: "distinct (map price xs)" using assms by (rule ordered_distinct)
  show ?thesis
  proof (cases "q = 0")
    case True
    with d dist assms show ?thesis by (simp add: delta_remove ordered_filter)
  next
    case False
    let ?v = "\<lparr>price = p, quantity = q, timestamp = ts\<rparr>"
    show ?thesis
    proof (cases "findIndex (\<lambda>l. price l = p) xs")
      case None
      then have fresh: "\<forall>l\<in>set xs. price l \<noteq> p" by (simp add: findIndex_None_iff)
      let ?k = "side_key s"
      from assms have "distinct (map ?k xs)" by (simp add: ordered_key strict_sorted_iff)
      moreover from fresh have "?k ?v \<notin> ?k ` set xs" by (auto simp: side_key_eq)
      ultimately have "distinct (map ?k (xs @ [?v]))" by simp
      then have "distinct (map ?k (sort_key ?k (xs @ [?v])))"
        unfolding distinct_map by (simp only: distinct_sort set_sort)
      then have "ordered s (sort_key ?k (xs @ [?v]))"
        by (simp add: ordered_key strict_sorted_iff)
      with None False d show ?thesis by (simp add: apply_delta_def sort_side_key)
    next
      case (Some i)
      from findIndex_Some [OF Some] have i: "i < length xs" "price (xs ! i) = p" by simp_all
      then have "map (side_key s) (xs[i := ?v]) = map (side_key s) xs"
        by (simp add: map_update side_key_eq list_update_same_conv)
      with assms have "ordered s (xs[i := ?v])" by (simp add: ordered_key)
      with Some False d show ?thesis by (simp add: apply_delta_def)
    qed
  qed
qed



subsection \<open>What \<open>onmessage\<close> does to each part of the state\<close>

lemma onmessage_discard: "data_U m \<le> version st \<Longrightarrow> onmessage ts m st = st"
  by (simp add: onmessage_def version_def)

lemma onmessage_version: "version st < data_U m \<Longrightarrow> version (onmessage ts m st) = data_u m"
  by (simp add: onmessage_def version_def Let_def)

lemma onmessage_bids_addr: "bids (orderbookRef (onmessage ts m st)) = bids (orderbookRef st)"
  by (simp add: onmessage_def Let_def)


lemma onmessage_published:
  "version st < data_U m \<Longrightarrow> orderbook (onmessage ts m st) = orderbookRef (onmessage ts m st)"
  by (simp add: onmessage_def version_def Let_def)


lemma onmessage_history:
  "version st < data_U m \<Longrightarrow>
   historicalData (onmessage ts m st) =
     append_snapshot (historicalData st)
       \<lparr>h_timestamp = ts, h_bids = next_addr st, h_asks = next_addr st + 1\<rparr>"
  by (simp add: onmessage_def version_def Let_def)

lemma onmessage_live_bids:
  assumes "live_ok st" "version st < data_U m"
  shows "live_bids (onmessage ts m st) = apply_deltas sort_bids ts (data_b m) (live_bids st)"
  using assms by (simp add: onmessage_def version_def live_ok_def live_bids_def Let_def)

lemma onmessage_live_asks:
  assumes "live_ok st" "version st < data_U m"
  shows "live_asks (onmessage ts m st) = apply_deltas sort_asks ts (data_a m) (live_asks st)"
  using assms by (simp add: onmessage_def version_def live_ok_def live_asks_def Let_def)

lemma onmessage_heap_other:
  assumes "a \<noteq> bids (orderbookRef st)" "a \<noteq> asks (orderbookRef st)" "a < next_addr st"
  shows "heap (onmessage ts m st) a = heap st a"
  using assms by (simp add: onmessage_def Let_def)


lemma onmessage_live_ok: "live_ok st \<Longrightarrow> live_ok (onmessage ts m st)"
  by (simp add: onmessage_def live_ok_def Let_def)

subsection \<open>What a successful load does\<close>

lemma initialize_ok_version:
  "version (initializeOrderbook now (FetchOk d) st) = d_lastUpdateId d"
  by (simp add: initializeOrderbook_def version_def Let_def)

lemma initialize_ok_live_bids:
  "live_bids (initializeOrderbook now (FetchOk d) st) = make_levels now 0 (d_bids d)"
  by (simp add: initializeOrderbook_def live_bids_def Let_def)

lemma initialize_ok_live_asks:
  "live_asks (initializeOrderbook now (FetchOk d) st) =
     make_levels now (length (d_bids d)) (d_asks d)"
  by (simp add: initializeOrderbook_def live_asks_def Let_def)

lemma initialize_ok_live_ok: "live_ok (initializeOrderbook now (FetchOk d) st)"
  by (simp add: initializeOrderbook_def live_ok_def Let_def)

lemma initialize_ok_history:
  "historicalData (initializeOrderbook now (FetchOk d) st) =
     [\<lparr>h_timestamp = now (length (d_bids d) + length (d_asks d)),
       h_bids = next_addr st + 2, h_asks = next_addr st + 3\<rparr>]"
  by (simp add: initializeOrderbook_def Let_def)


lemma initialize_failed:
  "initializeOrderbook now FetchFailed st = st\<lparr>error := Some ''Failed to initialize orderbook''\<rparr>"
  by (simp add: initializeOrderbook_def)


subsection \<open>Handlers that leave the book alone\<close>

lemma book_part_connect: "book_part (fst (connectWebSocket throws st)) = book_part st"
  by (simp add: connectWebSocket_def book_part_def)

lemma book_part_step:
  assumes "e \<in> {Mount, WsOpen, WsError, WsClose, TimerFired}"
  shows "book_part (fst (step throws st e)) = book_part st"
proof -
  have "book_part (fst (step throws st Mount)) = book_part st"
    and "book_part (fst (step throws st WsOpen)) = book_part st"
    and "book_part (fst (step throws st WsError)) = book_part st"
    and "book_part (fst (step throws st WsClose)) = book_part st"
    and "book_part (fst (step throws st TimerFired)) = book_part st"
    by (simp_all add: book_part_def onopen_def onerror_def onclose_def connectWebSocket_def)
  with assms show ?thesis by blast
qed

lemma book_part_failed:
  "book_part (fst (step throws st (FetchSettled now FetchFailed))) = book_part st"
  by (simp add: initialize_failed connectWebSocket_def book_part_def)

lemma book_part_live_ok: "book_part st' = book_part st \<Longrightarrow> live_ok st' = live_ok st"
  by (simp add: book_part_def live_ok_def)




lemma book_part_version: "book_part st' = book_part st \<Longrightarrow> version st' = version st"
  by (simp add: book_part_def version_def)

subsection \<open>The order of the book is kept\<close>





lemma run_append:
  "fst (run throws st (xs @ ys)) = fst (run throws (fst (run throws st xs)) ys)"
  by (induction xs arbitrary: st) (simp_all add: split_beta)




subsection \<open>The history buffer\<close>

lemma slice_last_absorb: "slice_last n (slice_last n ys @ zs) = slice_last n (ys @ zs)"
proof (cases "length ys \<le> n")
  case True
  then show ?thesis by (simp add: slice_last_def)
next
  case False
  define k where "k = length ys - n"
  from False have len: "length ys = k + n" by (simp add: k_def)
  then have "slice_last n (ys @ zs) = drop (length zs + k) (ys @ zs)"
    by (simp add: slice_last_def add.commute)
  also have "\<dots> = drop (length zs) (drop k (ys @ zs))" by (simp only: drop_drop)
  also have "\<dots> = drop (length zs) (drop k ys @ zs)" using len by simp
  finally have rhs: "slice_last n (ys @ zs) = drop (length zs) (drop k ys @ zs)" .
  from len have "slice_last n ys = drop k ys" by (simp add: slice_last_def)
  moreover from len have "length (drop k ys) = n" by simp
  ultimately have "slice_last n (slice_last n ys @ zs) = drop (length zs) (drop k ys @ zs)"
    by (simp add: slice_last_def)
  with rhs show ?thesis by simp
qed

lemma foldl_append_snapshot:
  "xs \<noteq> [] \<Longrightarrow> foldl append_snapshot h xs = slice_last 60 (h @ xs)"
proof (induction xs arbitrary: h)
  case Nil
  then show ?case by simp
next
  case (Cons x xs)
  show ?case
  proof (cases "xs = []")
    case True
    then show ?thesis by (simp add: append_snapshot_def)
  next
    case False
    have ap: "append_snapshot h x = slice_last 60 (h @ [x])"
      by (simp add: append_snapshot_def)
    from Cons.IH [OF False, of "append_snapshot h x"]
    have "foldl append_snapshot h (x # xs) = slice_last 60 (append_snapshot h x @ xs)"
      by simp
    also have "\<dots> = slice_last 60 (slice_last 60 (h @ [x]) @ xs)" by (simp only: ap)
    also have "\<dots> = slice_last 60 ((h @ [x]) @ xs)" by (rule slice_last_absorb)
    finally show ?thesis by simp
  qed
qed



text \<open>
  Claim C7. After more than 60 appends the buffer holds exactly 60 entries, they are the
  last 60 that were appended, in the order of appending with the oldest first, whatever the
  buffer held before; and an append to a buffer of 60 entries drops its first entry only.
\<close>

theorem history_bound:
  assumes "60 < length xs"
  shows "length (foldl append_snapshot h xs) = 60 \<and>
         foldl append_snapshot h xs = drop (length xs - 60) xs \<and>
         (length b = 60 \<longrightarrow> append_snapshot b s = tl b @ [s])"
proof -
  from assms have "xs \<noteq> []" by auto
  then have "foldl append_snapshot h xs = slice_last 60 (h @ xs)"
    by (rule foldl_append_snapshot)
  also have "\<dots> = drop (length xs - 60) xs"
    using assms by (simp add: slice_last_def)
  finally have eq: "foldl append_snapshot h xs = drop (length xs - 60) xs" .
  moreover from eq assms have "length (foldl append_snapshot h xs) = 60" by simp
  moreover have "length b = 60 \<longrightarrow> append_snapshot b s = tl b @ [s]"
    by (cases b) (simp_all add: append_snapshot_def slice_last_def)
  ultimately show ?thesis by simp
qed

theorem history_bound_witness:
  "60 < length [0..<61::nat] \<and> length [1..<61::nat] = 60 \<and>
   foldl append_snapshot [] [0..<61::nat] = [1..<61] \<and>
   append_snapshot [1..<61::nat] 61 = tl [1..<61] @ [61]"
proof -
  have h: "60 < length [0..<61::nat]" by simp
  have c: "length [1..<61::nat] = 60" by simp
  from history_bound [OF h, where h = "[]" and b = "[1..<61]" and s = 61] h c
  show ?thesis by simp
qed

subsection \<open>One delta on one side\<close>

text \<open>
  Claim C5. On a side that is in order, a delta with quantity 0 leaves exactly the levels
  at other prices, in their order: it removes the level at its price and changes nothing
  when no level has that price, so it never adds a level. A delta with another quantity
  leaves the levels at other prices and the new level at its price, whether a level was
  there or not. In both cases the side is in order afterwards.
\<close>

theorem delta_upsert:
  assumes "ordered s levels"
  shows "(q = 0 \<longrightarrow>
            apply_delta (sort_side s) ts levels (p, q) = filter (\<lambda>l. price l \<noteq> p) levels) \<and>
         (q = 0 \<and> p \<notin> price ` set levels \<longrightarrow>
            apply_delta (sort_side s) ts levels (p, q) = levels) \<and>
         (q \<noteq> 0 \<longrightarrow>
            set (apply_delta (sort_side s) ts levels (p, q)) =
              insert \<lparr>price = p, quantity = q, timestamp = ts\<rparr> {l \<in> set levels. price l \<noteq> p}) \<and>
         ordered s (apply_delta (sort_side s) ts levels (p, q))"
proof -
  have dist: "distinct (map price levels)" using assms by (rule ordered_distinct)
  have rm: "apply_delta (sort_side s) ts levels (p, 0) = filter (\<lambda>l. price l \<noteq> p) levels"
    using dist by (rule delta_remove)
  have "p \<notin> price ` set levels \<longrightarrow> filter (\<lambda>l. price l \<noteq> p) levels = levels"
    by (auto intro: filter_True)
  with rm have absent:
    "p \<notin> price ` set levels \<longrightarrow> apply_delta (sort_side s) ts levels (p, 0) = levels"
    by simp
  have ups: "q \<noteq> 0 \<longrightarrow>
      set (apply_delta (sort_side s) ts levels (p, q)) =
        insert \<lparr>price = p, quantity = q, timestamp = ts\<rparr> {l \<in> set levels. price l \<noteq> p}"
    using dist by (simp add: delta_upsert_set)
  have ord: "ordered s (apply_delta (sort_side s) ts levels (p, q))"
    using assms by (rule delta_ordered)
  from rm absent ups ord show ?thesis by blast
qed

theorem delta_upsert_witness:
  "ordered Bid [\<lparr>price = 100.5, quantity = 1, timestamp = 0\<rparr>,
                \<lparr>price = 99.5, quantity = 4, timestamp = 0\<rparr>] \<and>
   apply_delta (sort_side Bid) 7
     [\<lparr>price = 100.5, quantity = 1, timestamp = 0\<rparr>, \<lparr>price = 99.5, quantity = 4, timestamp = 0\<rparr>]
     (99.5, 0) = [\<lparr>price = 100.5, quantity = 1, timestamp = 0\<rparr>] \<and>
   apply_delta (sort_side Bid) 7
     [\<lparr>price = 100.5, quantity = 1, timestamp = 0\<rparr>, \<lparr>price = 99.5, quantity = 4, timestamp = 0\<rparr>]
     (98, 0) =
     [\<lparr>price = 100.5, quantity = 1, timestamp = 0\<rparr>, \<lparr>price = 99.5, quantity = 4, timestamp = 0\<rparr>] \<and>
   ordered Bid (apply_delta (sort_side Bid) 7
     [\<lparr>price = 100.5, quantity = 1, timestamp = 0\<rparr>, \<lparr>price = 99.5, quantity = 4, timestamp = 0\<rparr>]
     (100, 2))"
proof -
  let ?xs = "[\<lparr>price = 100.5, quantity = 1, timestamp = 0\<rparr>,
              \<lparr>price = 99.5, quantity = 4, timestamp = 0::int\<rparr>]"
  have h: "ordered Bid ?xs" by simp
  from delta_upsert [OF h, of 0 7 "99.5"]
  have a: "apply_delta (sort_side Bid) 7 ?xs (99.5, 0) = [\<lparr>price = 100.5, quantity = 1, timestamp = 0\<rparr>]"
    by simp
  from delta_upsert [OF h, of 0 7 98]
  have b: "apply_delta (sort_side Bid) 7 ?xs (98, 0) = ?xs"
    by simp
  from delta_upsert [OF h, of 2 7 100]
  have c: "ordered Bid (apply_delta (sort_side Bid) 7 ?xs (100, 2))"
    by blast
  from h a b c show ?thesis by blast
qed

subsection \<open>Stale messages\<close>

text \<open>
  Claim C4. A message whose last id is at most the version of the book, and whose first id
  is at most its last, changes nothing: the handler returns the state it was given, with
  the same sides, version, history and error text, and asks for nothing.
\<close>

theorem stale_identity:
  assumes "data_u m \<le> version st" and "data_U m \<le> data_u m"
  shows "onmessage ts m st = st \<and> step throws st (WsMessage ts m) = (st, [])"
proof -
  from assms have "data_U m \<le> version st" by simp
  then have "onmessage ts m st = st" by (rule onmessage_discard)
  then show ?thesis by simp
qed

theorem stale_identity_witness:
  "data_u duplicate_diff \<le> version loaded5 \<and> data_U duplicate_diff \<le> data_u duplicate_diff \<and>
   onmessage 2000 duplicate_diff loaded5 = loaded5 \<and>
   step False loaded5 (WsMessage 2000 duplicate_diff) = (loaded5, [])"
proof -
  have h1: "data_u duplicate_diff \<le> version loaded5"
    by (simp add: duplicate_diff_def loaded5_def scenario_loaded_def initialize_ok_version
        scenario_snapshot_def)
  have h2: "data_U duplicate_diff \<le> data_u duplicate_diff"
    by (simp add: duplicate_diff_def)
  from stale_identity [OF h1 h2, of 2000 False] h1 h2 show ?thesis by blast
qed

subsection \<open>Scenario A\<close>

lemma initial_live_ok: "live_ok initial_state"
  by (simp add: live_ok_def initial_state_def)

lemma scenario_levels:
  "make_levels now 0 (d_bids scenario_snapshot) = [\<lparr>price = 100, quantity = 2, timestamp = now 0\<rparr>]"
  "make_levels now (length (d_bids scenario_snapshot)) (d_asks scenario_snapshot) =
     [\<lparr>price = 101, quantity = 3, timestamp = now 1\<rparr>]"
  by (simp_all add: make_levels_def scenario_snapshot_def)

lemma scenario_loaded_facts:
  "live_ok (scenario_loaded now)"
  "version (scenario_loaded now) = 5"
  "live_bids (scenario_loaded now) = [\<lparr>price = 100, quantity = 2, timestamp = now 0\<rparr>]"
  "live_asks (scenario_loaded now) = [\<lparr>price = 101, quantity = 3, timestamp = now 1\<rparr>]"
  by (simp_all add: scenario_loaded_def initialize_ok_live_ok initialize_ok_version
      initialize_ok_live_bids initialize_ok_live_asks scenario_levels)
    (simp add: scenario_snapshot_def)

lemma step_open_book: "book_part (fst (step throws st WsOpen)) = book_part st"
  by (rule book_part_step) simp

lemma scenario_run_facts:
  fixes throws now ts
  defines "R \<equiv> fst (run throws initial_state (scenario_events now ts))"
  shows "live_ok R" and "version R = 6" and "live_bids R = []"
    and "live_asks R = [\<lparr>price = 101, quantity = 3, timestamp = now 1\<rparr>]"
    and "orderbook R = orderbookRef R" and "length (historicalData R) = 2"
proof -
  define st1 where "st1 = fst (connectWebSocket throws (scenario_loaded now))"
  define st2 where "st2 = fst (step throws st1 WsOpen)"
  have run: "R = onmessage ts scenario_diff st2"
    by (simp add: R_def scenario_events_def split_beta st1_def st2_def scenario_loaded_def)
  have "book_part st2 = book_part st1" unfolding st2_def by (rule step_open_book)
  also have "\<dots> = book_part (scenario_loaded now)" unfolding st1_def by (rule book_part_connect)
  finally have bp: "book_part st2 = book_part (scenario_loaded now)" .
  have ok: "live_ok st2" using book_part_live_ok [OF bp] by (simp add: scenario_loaded_facts)
  have v: "version st2 = 5" using book_part_version [OF bp] by (simp add: scenario_loaded_facts)
  from bp have lb: "live_bids st2 = [\<lparr>price = 100, quantity = 2, timestamp = now 0\<rparr>]"
    and la: "live_asks st2 = [\<lparr>price = 101, quantity = 3, timestamp = now 1\<rparr>]"
    using scenario_loaded_facts(3,4) [of now]
    by (simp_all add: book_part_def live_bids_def live_asks_def)
  from bp have hd: "length (historicalData st2) = 1"
    by (simp add: book_part_def scenario_loaded_def initialize_ok_history)
  have acc: "version st2 < data_U scenario_diff" by (simp add: v scenario_diff_def)
  show "live_ok R" unfolding run using ok by (rule onmessage_live_ok)
  have "live_bids R = apply_deltas sort_bids ts (data_b scenario_diff) (live_bids st2)"
    unfolding run by (rule onmessage_live_bids [OF ok acc])
  then show "live_bids R = []"
    by (simp add: lb scenario_diff_def apply_deltas_def apply_delta_def splice1_def)
  have "live_asks R = apply_deltas sort_asks ts (data_a scenario_diff) (live_asks st2)"
    unfolding run by (rule onmessage_live_asks [OF ok acc])
  then show "live_asks R = [\<lparr>price = 101, quantity = 3, timestamp = now 1\<rparr>]"
    by (simp add: la scenario_diff_def apply_deltas_def)
  have "version R = data_u scenario_diff"
    unfolding run by (rule onmessage_version [OF acc])
  then show "version R = 6" by (simp add: scenario_diff_def)
  show "orderbook R = orderbookRef R"
    unfolding run by (rule onmessage_published [OF acc])
  have "historicalData R = append_snapshot (historicalData st2)
      \<lparr>h_timestamp = ts, h_bids = next_addr st2, h_asks = next_addr st2 + 1\<rparr>"
    unfolding run by (rule onmessage_history [OF acc])
  with hd show "length (historicalData R) = 2"
    by (simp add: append_snapshot_def slice_last_def)
qed

text \<open>
  Claim C6. From the initial state, the mount effect, the load of the snapshot
  \<open>{bids: [(100, 2)], asks: [(101, 3)], version: 5}\<close>, the opening of the socket and the diff
  \<open>{firstVersion: 6, finalVersion: 6, bidDeltas: [(100, 0)], askDeltas: []}\<close> leave a book
  with no bid, the one ask \<open>(101, 3)\<close> and version 6, which is also the book that is
  published.
\<close>

theorem scenario_A:
  "live_bids (fst (run throws initial_state (scenario_events now ts))) = [] \<and>
   live_asks (fst (run throws initial_state (scenario_events now ts))) =
     [\<lparr>price = 101, quantity = 3, timestamp = now 1\<rparr>] \<and>
   version (fst (run throws initial_state (scenario_events now ts))) = 6 \<and>
   orderbook (fst (run throws initial_state (scenario_events now ts))) =
     orderbookRef (fst (run throws initial_state (scenario_events now ts)))"
  using scenario_run_facts [of throws now ts] by simp

subsection \<open>The history entries\<close>








subsection \<open>Admission of a message\<close>

lemma loaded5_facts:
  "live_ok loaded5" "version loaded5 = 5"
  "live_bids loaded5 = [\<lparr>price = 100, quantity = 2, timestamp = 1000\<rparr>]"
  "live_asks loaded5 = [\<lparr>price = 101, quantity = 3, timestamp = 1001\<rparr>]"
  by (simp_all add: loaded5_def scenario_loaded_facts scenario_clock_def)





text \<open>
  A message whose range starts at or below the version and ends above it. Line 97 compares
  the first id \<^verbatim>\<open>data.U\<close> with the version, while line 139 stores the last id \<^verbatim>\<open>data.u\<close>; the
  test for a message that brings nothing new needs the last id. At version 5 the message
  with ids 5 to 6 carries update 6, and the rule of the specification admits it; the handler
  drops it whole. On a stream without gaps the message with id 7 follows and is applied, so
  the bid of update 6 never reaches the book, which is nevertheless at version 7.
\<close>

lemma straddle_lost:
  "spec_admits (version loaded5) overlap_diff \<and>
   version loaded5 < data_u overlap_diff \<and>
   onmessage 2000 overlap_diff loaded5 = loaded5 \<and>
   version (fst (run False loaded5 [WsMessage 2000 overlap_diff, WsMessage 2001 gap_diff])) = 7 \<and>
   live_bids (fst (run False loaded5 [WsMessage 2000 overlap_diff, WsMessage 2001 gap_diff])) =
     [\<lparr>price = 100, quantity = 2, timestamp = 1000\<rparr>, \<lparr>price = 99, quantity = 1, timestamp = 2001\<rparr>]"
proof -
  have "data_U overlap_diff \<le> version loaded5" by (simp add: loaded5_facts overlap_diff_def)
  then have d: "onmessage 2000 overlap_diff loaded5 = loaded5" by (rule onmessage_discard)
  then have run: "fst (run False loaded5 [WsMessage 2000 overlap_diff, WsMessage 2001 gap_diff]) =
      onmessage 2001 gap_diff loaded5"
    by (simp add: split_beta)
  have acc: "version loaded5 < data_U gap_diff" by (simp add: loaded5_facts gap_diff_def)
  have "version (onmessage 2001 gap_diff loaded5) = data_u gap_diff"
    by (rule onmessage_version [OF acc])
  then have v: "version (onmessage 2001 gap_diff loaded5) = 7" by (simp add: gap_diff_def)
  have "live_bids (onmessage 2001 gap_diff loaded5) =
      apply_deltas sort_bids 2001 (data_b gap_diff) (live_bids loaded5)"
    by (rule onmessage_live_bids [OF loaded5_facts(1) acc])
  then have b: "live_bids (onmessage 2001 gap_diff loaded5) =
     [\<lparr>price = 100, quantity = 2, timestamp = 1000\<rparr>, \<lparr>price = 99, quantity = 1, timestamp = 2001\<rparr>]"
    by (simp add: loaded5_facts gap_diff_def apply_deltas_def apply_delta_def sort_bids_def)
  have s: "spec_admits (version loaded5) overlap_diff" "version loaded5 < data_u overlap_diff"
    by (simp_all add: loaded5_facts spec_admits_def overlap_diff_def)
  from s d v b show ?thesis by (simp only: run)
qed

subsection \<open>Disconnect and reconnect\<close>

lemma run_append_effects:
  "snd (run throws st (xs @ ys)) =
     snd (run throws st xs) @ snd (run throws (fst (run throws st xs)) ys)"
  by (induction xs arbitrary: st) (simp_all add: split_beta)

lemma close_then_timer:
  "run False st [WsClose, TimerFired] =
     (st\<lparr>wsRef := Some CONNECTING, connected_flag := False\<rparr>, [SetTimeout 3000, NewWebSocket])"
  by (simp add: onclose_def connectWebSocket_def)

lemma reconnect_cycles:
  "book_part (fst (run False st (concat (replicate n [WsClose, TimerFired])))) = book_part st \<and>
   snd (run False st (concat (replicate n [WsClose, TimerFired]))) =
     concat (replicate n [SetTimeout 3000, NewWebSocket])"
proof (induction n arbitrary: st)
  case 0
  then show ?case by simp
next
  case (Suc n)
  let ?st = "st\<lparr>wsRef := Some CONNECTING, connected_flag := False\<rparr>"
  let ?rest = "concat (replicate n [WsClose, TimerFired])"
  have unfold: "concat (replicate (Suc n) [WsClose, TimerFired]) = [WsClose, TimerFired] @ ?rest"
    by simp
  have bp: "book_part ?st = book_part st" by (simp add: book_part_def)
  have "fst (run False st (concat (replicate (Suc n) [WsClose, TimerFired]))) =
      fst (run False ?st ?rest)"
    by (simp only: unfold run_append close_then_timer fst_conv)
  moreover have "snd (run False st (concat (replicate (Suc n) [WsClose, TimerFired]))) =
      [SetTimeout 3000, NewWebSocket] @ snd (run False ?st ?rest)"
    by (simp only: unfold run_append_effects close_then_timer fst_conv snd_conv)
  ultimately show ?case using Suc.IH [of ?st] bp by simp
qed

text \<open>
  Claim C2, as the code has it. On a disconnect the handler clears the connected flag and
  sets a timer of 3000 ms for \<open>connectWebSocket\<close>, in every state: the delay does not grow
  and no count of attempts is kept. When the timer fires a new socket is opened, the closed
  one not being open. The book, the published book and the history are left as they are,
  and no snapshot is asked for: after any number of disconnects and reconnections the book
  part of the state is the one before, and the effects are the timers and the sockets only.
\<close>

theorem reconnect_policy:
  "step throws st WsClose =
     (st\<lparr>wsRef := Some CLOSED, connected_flag := False\<rparr>, [SetTimeout 3000]) \<and>
   step False (fst (step throws st WsClose)) TimerFired =
     (st\<lparr>wsRef := Some CONNECTING, connected_flag := False\<rparr>, [NewWebSocket]) \<and>
   book_part (fst (run False st (concat (replicate n [WsClose, TimerFired])))) = book_part st \<and>
   snd (run False st (concat (replicate n [WsClose, TimerFired]))) =
     concat (replicate n [SetTimeout 3000, NewWebSocket])"
proof -
  have "step throws st WsClose =
     (st\<lparr>wsRef := Some CLOSED, connected_flag := False\<rparr>, [SetTimeout 3000])"
    by (simp add: onclose_def)
  moreover have "step False (fst (step throws st WsClose)) TimerFired =
     (st\<lparr>wsRef := Some CONNECTING, connected_flag := False\<rparr>, [NewWebSocket])"
    by (simp add: onclose_def connectWebSocket_def)
  ultimately show ?thesis using reconnect_cycles [of st n] by simp
qed

text \<open>
  Claim C2 fails as stated. After the load of scenario A, a disconnect and the timer leave
  the book with its bid, its ask and version 5, and the history with its entry; the effects
  are the timer and the new socket, and no fetch.
\<close>

theorem disconnect_counterexample:
  "live_bids (fst (run False loaded5 [WsOpen, WsClose, TimerFired])) =
     [\<lparr>price = 100, quantity = 2, timestamp = 1000\<rparr>] \<and>
   live_asks (fst (run False loaded5 [WsOpen, WsClose, TimerFired])) =
     [\<lparr>price = 101, quantity = 3, timestamp = 1001\<rparr>] \<and>
   version (fst (run False loaded5 [WsOpen, WsClose, TimerFired])) = 5 \<and>
   length (historicalData (fst (run False loaded5 [WsOpen, WsClose, TimerFired]))) = 1 \<and>
   snd (run False loaded5 [WsOpen, WsClose, TimerFired]) = [SetTimeout 3000, NewWebSocket]"
proof -
  let ?st = "fst (step False loaded5 WsOpen)"
  have split: "[WsOpen, WsClose, TimerFired] = [WsOpen] @ [WsClose, TimerFired]" by simp
  have r1: "fst (run False loaded5 [WsOpen]) = ?st" "snd (run False loaded5 [WsOpen]) = []"
    by simp_all
  have "fst (run False loaded5 [WsOpen, WsClose, TimerFired]) =
      ?st\<lparr>wsRef := Some CONNECTING, connected_flag := False\<rparr>"
    by (simp only: split run_append r1 close_then_timer fst_conv)
  then have "book_part (fst (run False loaded5 [WsOpen, WsClose, TimerFired])) = book_part ?st"
    by (simp add: book_part_def)
  also have "\<dots> = book_part loaded5" by (rule step_open_book)
  finally have bp:
    "book_part (fst (run False loaded5 [WsOpen, WsClose, TimerFired])) = book_part loaded5" .
  have fx: "snd (run False loaded5 [WsOpen, WsClose, TimerFired]) = [SetTimeout 3000, NewWebSocket]"
    by (simp only: split run_append_effects r1 close_then_timer snd_conv append_Nil)
  have hd: "length (historicalData loaded5) = 1"
    by (simp add: loaded5_def scenario_loaded_def initialize_ok_history)
  from bp have "live_bids (fst (run False loaded5 [WsOpen, WsClose, TimerFired])) = live_bids loaded5"
    and "live_asks (fst (run False loaded5 [WsOpen, WsClose, TimerFired])) = live_asks loaded5"
    and "version (fst (run False loaded5 [WsOpen, WsClose, TimerFired])) = version loaded5"
    and "historicalData (fst (run False loaded5 [WsOpen, WsClose, TimerFired])) =
      historicalData loaded5"
    by (simp_all add: book_part_def live_bids_def live_asks_def version_def)
  with fx hd show ?thesis by (simp only: loaded5_facts)
qed

subsection \<open>A load that fails\<close>

text \<open>
  Claim C8, as the code has it. A load that fails sets the error text and writes nothing
  else: the store, the book, the published book and the history are as before the attempt,
  so on the first load the sides are empty and the version is 0. The hook has no state of
  not being ready: the socket is opened next as after a load that succeeds, and a message
  that arrives is admitted against the unchanged book by the rule of line 97.
\<close>

theorem failed_load:
  "initializeOrderbook now FetchFailed st =
     st\<lparr>error := Some ''Failed to initialize orderbook''\<rparr> \<and>
   book_part (fst (step throws st (FetchSettled now FetchFailed))) = book_part st \<and>
   live_bids (fst (step throws initial_state (FetchSettled now FetchFailed))) = [] \<and>
   live_asks (fst (step throws initial_state (FetchSettled now FetchFailed))) = [] \<and>
   version (fst (step throws initial_state (FetchSettled now FetchFailed))) = 0 \<and>
   step False initial_state (FetchSettled now FetchFailed) =
     (initial_state\<lparr>error := Some ''Failed to initialize orderbook'', wsRef := Some CONNECTING\<rparr>,
      [NewWebSocket]) \<and>
   (version st < data_U m \<longrightarrow>
      version (onmessage ts m (fst (step throws st (FetchSettled now FetchFailed)))) = data_u m)"
proof -
  let ?st = "fst (step throws st (FetchSettled now FetchFailed))"
  have bp: "book_part ?st = book_part st" by (rule book_part_failed)
  have bp0: "book_part (fst (step throws initial_state (FetchSettled now FetchFailed))) =
      book_part initial_state"
    by (rule book_part_failed)
  then have empty: "live_bids (fst (step throws initial_state (FetchSettled now FetchFailed))) = []"
      "live_asks (fst (step throws initial_state (FetchSettled now FetchFailed))) = []"
      "version (fst (step throws initial_state (FetchSettled now FetchFailed))) = 0"
    by (simp_all add: book_part_def live_bids_def live_asks_def version_def initial_state_def)
  have conn: "step False initial_state (FetchSettled now FetchFailed) =
     (initial_state\<lparr>error := Some ''Failed to initialize orderbook'', wsRef := Some CONNECTING\<rparr>,
      [NewWebSocket])"
    by (simp add: initialize_failed connectWebSocket_def initial_state_def)
  have "version (onmessage ts m ?st) = data_u m" if "version st < data_U m"
  proof -
    from that book_part_version [OF bp] have "version ?st < data_U m" by simp
    then show ?thesis by (rule onmessage_version)
  qed
  with bp empty conn show ?thesis by (simp add: initialize_failed)
qed

theorem failed_load_witness:
  "version initial_state < data_U first_diff \<and>
   version (onmessage 2000 first_diff
     (fst (step False initial_state (FetchSettled scenario_clock FetchFailed)))) = 1"
proof -
  have h: "version initial_state < data_U first_diff"
    by (simp add: version_def initial_state_def first_diff_def)
  from failed_load [of scenario_clock initial_state False first_diff 2000] h
  have "version (onmessage 2000 first_diff
     (fst (step False initial_state (FetchSettled scenario_clock FetchFailed)))) = data_u first_diff"
    by blast
  with h show ?thesis by (simp add: first_diff_def)
qed

text \<open>
  Claim C8 fails as stated. After a load that failed the socket is opened, and the first
  message of the stream is applied to the book no snapshot has filled: the book has the bid
  of the message and version 1, and the opening of the socket has cleared the error text.
\<close>

theorem failed_load_counterexample:
  "live_bids (fst (run False initial_state
     [Mount, FetchSettled scenario_clock FetchFailed, WsOpen, WsMessage 2000 first_diff])) =
     [\<lparr>price = 100, quantity = 1, timestamp = 2000\<rparr>] \<and>
   version (fst (run False initial_state
     [Mount, FetchSettled scenario_clock FetchFailed, WsOpen, WsMessage 2000 first_diff])) = 1 \<and>
   error (fst (run False initial_state
     [Mount, FetchSettled scenario_clock FetchFailed, WsOpen, WsMessage 2000 first_diff])) = None \<and>
   snd (run False initial_state
     [Mount, FetchSettled scenario_clock FetchFailed, WsOpen, WsMessage 2000 first_diff]) =
     [Fetch, NewWebSocket]"
proof -
  define st2 where "st2 = fst (step False initial_state (FetchSettled scenario_clock FetchFailed))"
  define st3 where "st3 = fst (step False st2 WsOpen)"
  have run: "fst (run False initial_state
     [Mount, FetchSettled scenario_clock FetchFailed, WsOpen, WsMessage 2000 first_diff]) =
     onmessage 2000 first_diff st3"
    by (simp add: split_beta st2_def st3_def)
  have fx: "snd (run False initial_state
     [Mount, FetchSettled scenario_clock FetchFailed, WsOpen, WsMessage 2000 first_diff]) =
     [Fetch, NewWebSocket]"
    by (simp add: split_beta initialize_failed connectWebSocket_def initial_state_def)
  have "book_part st3 = book_part st2" unfolding st3_def by (rule step_open_book)
  also have "\<dots> = book_part initial_state" unfolding st2_def by (rule book_part_failed)
  finally have bp: "book_part st3 = book_part initial_state" .
  from book_part_live_ok [OF bp] have ok: "live_ok st3" by (simp add: initial_live_ok)
  from book_part_version [OF bp] have v: "version st3 = 0"
    by (simp add: version_def initial_state_def)
  from bp have lb: "live_bids st3 = []"
    by (simp add: book_part_def live_bids_def initial_state_def)
  have acc: "version st3 < data_U first_diff" by (simp add: v first_diff_def)
  have "live_bids (onmessage 2000 first_diff st3) =
      apply_deltas sort_bids 2000 (data_b first_diff) (live_bids st3)"
    by (rule onmessage_live_bids [OF ok acc])
  then have b: "live_bids (onmessage 2000 first_diff st3) =
      [\<lparr>price = 100, quantity = 1, timestamp = 2000\<rparr>]"
    by (simp add: lb first_diff_def apply_deltas_def apply_delta_def sort_bids_def)
  have "version (onmessage 2000 first_diff st3) = data_u first_diff"
    by (rule onmessage_version [OF acc])
  then have v1: "version (onmessage 2000 first_diff st3) = 1" by (simp add: first_diff_def)
  have "error st3 = None" by (simp add: st3_def onopen_def)
  then have e: "error (onmessage 2000 first_diff st3) = None"
    by (simp add: onmessage_def Let_def)
  from b v1 e fx show ?thesis by (simp only: run)
qed

subsection \<open>The published book and the live arrays\<close>

lemma history_entry_stable:
  assumes "hist_ok st" "h \<in> set (historicalData st)"
  shows "heap (onmessage ts m st) (h_bids h) = heap st (h_bids h) \<and>
         heap (onmessage ts m st) (h_asks h) = heap st (h_asks h)"
  using assms by (simp add: hist_ok_def onmessage_heap_other)

text \<open>
  Claim C9 fails on the code. The book published by the load of scenario A holds the bid
  \<open>(100, 2)\<close> at version 5. The next message is written into the same arrays: read through
  the book that was published first, the bids are empty afterwards, while its version is
  still 5; the book published second has the same bid array. The history entries are
  slices of their own, which \<open>history_entry_stable\<close> shows no later message writes.
\<close>

theorem published_book_overwritten:
  "heap loaded5 (bids (orderbook loaded5)) = [\<lparr>price = 100, quantity = 2, timestamp = 1000\<rparr>] \<and>
   lastUpdateId (orderbook loaded5) = 5 \<and>
   heap (onmessage 2000 scenario_diff loaded5) (bids (orderbook loaded5)) = [] \<and>
   bids (orderbook (onmessage 2000 scenario_diff loaded5)) = bids (orderbook loaded5) \<and>
   lastUpdateId (orderbook (onmessage 2000 scenario_diff loaded5)) = 6"
proof -
  have pub: "orderbook loaded5 = orderbookRef loaded5"
    by (simp add: loaded5_def scenario_loaded_def initializeOrderbook_def Let_def)
  have acc: "version loaded5 < data_U scenario_diff"
    by (simp add: loaded5_facts scenario_diff_def)
  have a: "heap loaded5 (bids (orderbook loaded5)) =
      [\<lparr>price = 100, quantity = 2, timestamp = 1000\<rparr>]"
    using loaded5_facts(3) by (simp add: pub live_bids_def)
  have b: "lastUpdateId (orderbook loaded5) = 5"
    using loaded5_facts(2) by (simp add: pub version_def)
  have "live_bids (onmessage 2000 scenario_diff loaded5) =
      apply_deltas sort_bids 2000 (data_b scenario_diff) (live_bids loaded5)"
    by (rule onmessage_live_bids [OF loaded5_facts(1) acc])
  then have "live_bids (onmessage 2000 scenario_diff loaded5) = []"
    by (simp add: loaded5_facts scenario_diff_def apply_deltas_def apply_delta_def splice1_def)
  then have c: "heap (onmessage 2000 scenario_diff loaded5) (bids (orderbook loaded5)) = []"
    by (simp add: live_bids_def onmessage_bids_addr pub)
  have p2: "orderbook (onmessage 2000 scenario_diff loaded5) =
      orderbookRef (onmessage 2000 scenario_diff loaded5)"
    by (rule onmessage_published [OF acc])
  have d: "bids (orderbook (onmessage 2000 scenario_diff loaded5)) = bids (orderbook loaded5)"
    by (simp add: p2 pub onmessage_bids_addr)
  have "version (onmessage 2000 scenario_diff loaded5) = data_u scenario_diff"
    by (rule onmessage_version [OF acc])
  then have "version (onmessage 2000 scenario_diff loaded5) = 6"
    by (simp add: scenario_diff_def)
  then have e: "lastUpdateId (orderbook (onmessage 2000 scenario_diff loaded5)) = 6"
    by (simp only: p2 version_def)
  from a b c d e show ?thesis by simp
qed

end
